theory Spec2Isabelle
  imports Main "HOL-Library.Word"
begin

section \<open>The Zstandard filter of Drogon (ZstdFilter.h, ZstdFilter.cc)\<close>

text \<open>
  The filter is glue around libzstd. The library is linked, not part of the repository, so
  its entry points are the fields of a record that every modelled function takes as its
  first argument; the C++ functions are translated line by line on top of it.
  \<open>size_t\<close> and \<open>unsigned long long\<close> are 64-bit words (LP64).
\<close>

subsection \<open>C++ values and exceptions\<close>

type_synonym size_t = "64 word"
type_synonym u64 = "64 word"

text \<open>
  The exceptions that can leave the functions: the \<open>std::runtime_error\<close> they throw
  themselves, with its message, and the exception of a \<open>std::string\<close> or
  \<open>std::vector\<close> that is asked for more elements than can be constructed
  (\<open>std::length_error\<close> above \<open>max_size()\<close>; a \<open>std::bad_alloc\<close> is not told apart).
  All of them derive from \<open>std::exception\<close>.
\<close>

datatype exn = runtime_error string | length_error

text \<open>
  \<open>std::string s(n, '\0')\<close> and \<open>s.resize(n)\<close>; \<open>mx\<close> is the largest size the
  platform constructs.
\<close>

definition string_fill :: "nat \<Rightarrow> nat \<Rightarrow> exn + string" where
  "string_fill mx n = (if mx < n then Inl length_error else Inr (replicate n (CHR 0x00)))"

definition string_resize :: "nat \<Rightarrow> nat \<Rightarrow> string \<Rightarrow> exn + string" where
  "string_resize mx n s =
     (if mx < n then Inl length_error
      else Inr (take n s @ replicate (n - length s) (CHR 0x00)))"

text \<open>
  A library call that is handed \<open>&buf[0]\<close> leaves the bytes it wrote at the start of the
  buffer; the rest of the buffer keeps its contents.
\<close>

definition store :: "string \<Rightarrow> string \<Rightarrow> string" where
  "store buf written = take (length buf) written @ drop (length written) buf"

subsection \<open>The libzstd interface\<close>

text \<open>The sentinels of zstd.h: \<open>(0ULL - 1)\<close> and \<open>(0ULL - 2)\<close>.\<close>

definition ZSTD_CONTENTSIZE_UNKNOWN :: u64 where
  "ZSTD_CONTENTSIZE_UNKNOWN = 0 - 1"

definition ZSTD_CONTENTSIZE_ERROR :: u64 where
  "ZSTD_CONTENTSIZE_ERROR = 0 - 2"

datatype ZSTD_EndDirective = ZSTD_e_continue | ZSTD_e_flush | ZSTD_e_end

text \<open>
  \<open>ZSTD_inBuffer\<close> and \<open>ZSTD_outBuffer\<close>: the buffer a pointer refers to (modelled by its
  contents), its size and the position up to which it has been read or written.
\<close>

record ZSTD_inBuffer =
  in_src :: string
  in_size :: nat
  in_pos :: nat

record ZSTD_outBuffer =
  out_dst :: string
  out_size :: nat
  out_pos :: nat

text \<open>
  The entry points the filter calls. \<open>'c\<close> and \<open>'d\<close> are the states of a compression and
  of a decompression context; a creation that returns \<open>NULL\<close> is \<open>None\<close>. A one-shot
  call returns its \<open>size_t\<close> code together with the bytes it wrote to \<open>dst\<close>; a streaming
  call returns its code, the new state of the context and the updated buffer structures.
\<close>

record ('c, 'd) zstd =
  ZSTD_compressBound :: "size_t \<Rightarrow> size_t"
  ZSTD_isError :: "size_t \<Rightarrow> bool"
  ZSTD_getErrorName :: "size_t \<Rightarrow> string"
  ZSTD_compress :: "size_t \<Rightarrow> string \<Rightarrow> int \<Rightarrow> size_t \<times> string"
  ZSTD_decompress :: "size_t \<Rightarrow> string \<Rightarrow> size_t \<times> string"
  ZSTD_getFrameContentSize :: "string \<Rightarrow> u64"
  ZSTD_createCCtx :: "'c option"
  ZSTD_createDCtx :: "'d option"
  ZSTD_compressCCtx :: "'c \<Rightarrow> size_t \<Rightarrow> string \<Rightarrow> int \<Rightarrow> size_t \<times> string"
  ZSTD_decompressDCtx :: "'d \<Rightarrow> size_t \<Rightarrow> string \<Rightarrow> size_t \<times> string"
  ZSTD_CStreamOutSize :: size_t
  ZSTD_DStreamOutSize :: size_t
  ZSTD_compressStream2 ::
    "'c \<Rightarrow> ZSTD_outBuffer \<Rightarrow> ZSTD_inBuffer \<Rightarrow> ZSTD_EndDirective
       \<Rightarrow> size_t \<times> 'c \<times> ZSTD_outBuffer \<times> ZSTD_inBuffer"
  ZSTD_compressStream ::
    "'c \<Rightarrow> ZSTD_outBuffer \<Rightarrow> ZSTD_inBuffer \<Rightarrow> size_t \<times> 'c \<times> ZSTD_outBuffer \<times> ZSTD_inBuffer"
  ZSTD_endStream :: "'c \<Rightarrow> ZSTD_outBuffer \<Rightarrow> size_t \<times> 'c \<times> ZSTD_outBuffer"
  ZSTD_decompressStream ::
    "'d \<Rightarrow> ZSTD_outBuffer \<Rightarrow> ZSTD_inBuffer \<Rightarrow> size_t \<times> 'd \<times> ZSTD_outBuffer \<times> ZSTD_inBuffer"

subsection \<open>ZstdFilter.h\<close>

definition COMPRESSION_LEVEL :: int where
  "COMPRESSION_LEVEL = 3"

subsection \<open>One-shot functions without a context\<close>

definition compressData :: "('c, 'd) zstd \<Rightarrow> nat \<Rightarrow> string \<Rightarrow> exn + string" where
  "compressData z mx data =
     (case string_fill mx (unat (ZSTD_compressBound z (of_nat (length data)))) of
        Inl e \<Rightarrow> Inl e
      | Inr compressed \<Rightarrow>
          (case ZSTD_compress z (ZSTD_compressBound z (of_nat (length data))) data
                  COMPRESSION_LEVEL of
             (cSize, written) \<Rightarrow>
               if ZSTD_isError z cSize
               then Inl (runtime_error (''Compression error: '' @ ZSTD_getErrorName z cSize))
               else string_resize mx (unat cSize) (store compressed written)))"

definition decompressData :: "('c, 'd) zstd \<Rightarrow> nat \<Rightarrow> string \<Rightarrow> exn + string" where
  "decompressData z mx data =
     (if ZSTD_getFrameContentSize z data = ZSTD_CONTENTSIZE_ERROR
         \<or> ZSTD_getFrameContentSize z data = ZSTD_CONTENTSIZE_UNKNOWN
      then Inl (runtime_error ''Invalid compressed data'')
      else
        (case string_fill mx (unat (ZSTD_getFrameContentSize z data)) of
           Inl e \<Rightarrow> Inl e
         | Inr decompressed \<Rightarrow>
             (case ZSTD_decompress z (ZSTD_getFrameContentSize z data) data of
                (dSize, written) \<Rightarrow>
                  if ZSTD_isError z dSize
                  then Inl (runtime_error
                              (''Decompression error: '' @ ZSTD_getErrorName z dSize))
                  else string_resize mx (unat dSize) (store decompressed written))))"

subsection \<open>One-shot functions with an explicit context\<close>

text \<open>
  What a function did with its codec context, in order: \<open>Created\<close> when
  \<open>ZSTD_createCCtx\<close> or \<open>ZSTD_createDCtx\<close> returned a context, \<open>Freed\<close> for each
  \<open>ZSTD_freeCCtx\<close> or \<open>ZSTD_freeDCtx\<close>. The functions below return this log beside
  their result.
\<close>

datatype ctx_event = Created | Freed

definition advancedCompressData ::
  "('c, 'd) zstd \<Rightarrow> nat \<Rightarrow> string \<Rightarrow> (exn + string) \<times> ctx_event list" where
  "advancedCompressData z mx data =
     (case ZSTD_createCCtx z of
        None \<Rightarrow> (Inl (runtime_error ''Failed to create ZSTD compression context''), [])
      | Some cctx \<Rightarrow>
          (case string_fill mx (unat (ZSTD_compressBound z (of_nat (length data)))) of
             Inl e \<Rightarrow> (Inl e, [Created])
           | Inr compressedData \<Rightarrow>
               (case ZSTD_compressCCtx z cctx (of_nat (length compressedData)) data
                       COMPRESSION_LEVEL of
                  (compressedSize, written) \<Rightarrow>
                    (if ZSTD_isError z compressedSize
                     then Inl (runtime_error
                                 (''Compression error: '' @ ZSTD_getErrorName z compressedSize))
                     else string_resize mx (unat compressedSize) (store compressedData written),
                     [Created, Freed]))))"

definition advancedDecompressData ::
  "('c, 'd) zstd \<Rightarrow> nat \<Rightarrow> string \<Rightarrow> (exn + string) \<times> ctx_event list" where
  "advancedDecompressData z mx data =
     (case ZSTD_createDCtx z of
        None \<Rightarrow> (Inl (runtime_error ''Failed to create ZSTD decompression context''), [])
      | Some dctx \<Rightarrow>
          if ZSTD_getFrameContentSize z data = ZSTD_CONTENTSIZE_ERROR
          then (Inl (runtime_error ''Invalid data for decompression''), [Created, Freed])
          else if ZSTD_getFrameContentSize z data = ZSTD_CONTENTSIZE_UNKNOWN
          then (Inl (runtime_error ''Original size unknown''), [Created, Freed])
          else
            (case string_fill mx (unat (ZSTD_getFrameContentSize z data)) of
               Inl e \<Rightarrow> (Inl e, [Created])
             | Inr decompressedData \<Rightarrow>
                 (case ZSTD_decompressDCtx z dctx (ZSTD_getFrameContentSize z data) data of
                    (decompressedSize, written) \<Rightarrow>
                      (if ZSTD_isError z decompressedSize
                       then Inl (runtime_error
                                   (''Decompression error: ''
                                      @ ZSTD_getErrorName z decompressedSize))
                       else string_resize mx (unat decompressedSize)
                              (store decompressedData written),
                       [Created, Freed]))))"

subsection \<open>Streams\<close>

text \<open>
  A \<open>std::istream\<close>: the characters it still delivers and whether \<open>good()\<close> holds.
  \<open>read(buf, n)\<close> extracts \<open>n\<close> characters, or all that is left when there are fewer,
  and then \<open>good()\<close> no longer holds. The streams are used with their default exception
  mask, so a device error does not throw: it ends the characters early, exactly as the end
  of the data does. The result is the extracted characters (\<open>gcount()\<close> is their number)
  and the stream after the call.
\<close>

record istream =
  is_rest :: string
  is_good :: bool

definition istream_read :: "istream \<Rightarrow> nat \<Rightarrow> string \<times> istream" where
  "istream_read input n =
     (if n \<le> length (is_rest input)
      then (take n (is_rest input), input\<lparr>is_rest := drop n (is_rest input)\<rparr>)
      else (is_rest input, \<lparr>is_rest = [], is_good = False\<rparr>))"

text \<open>\<open>std::vector<char> v(n)\<close>.\<close>

definition vector_fill :: "nat \<Rightarrow> nat \<Rightarrow> exn + string" where
  "vector_fill mx n = (if mx < n then Inl length_error else Inr (replicate n (CHR 0x00)))"

text \<open>
  How a call of a function declared to return \<open>std::string\<close> ends: with a \<open>return\<close>
  statement, with an exception, or by reaching the closing brace of the body without a
  \<open>return\<close> statement, in which case the caller is handed no value (the behaviour is
  undefined in C++).
\<close>

datatype 'a outcome = Returned 'a | Threw exn | NoReturn

text \<open>
  The end of a streaming call: how it ended, what the local \<open>std::ostringstream output\<close>
  held at that moment, and the log of the context.
\<close>

record stream_run =
  outcome :: "string outcome"
  output_held :: string
  ctx_log :: "ctx_event list"

text \<open>
  The four streaming functions share their two loops and differ in the primitive they call,
  here the parameter \<open>step\<close>. \<open>consume_chunk\<close> is the inner loop
  \<open>while (inputBuffer.pos < inputBuffer.size)\<close>: it ends with \<open>Inl\<close> of the error code and
  the output written so far when the primitive reports an error. A loop that never ends
  has the value \<open>None\<close>.
\<close>

type_synonym 'x stream_step =
  "'x \<Rightarrow> ZSTD_outBuffer \<Rightarrow> ZSTD_inBuffer \<Rightarrow> size_t \<times> 'x \<times> ZSTD_outBuffer \<times> ZSTD_inBuffer"

partial_function (option) consume_chunk ::
  "(size_t \<Rightarrow> bool) \<Rightarrow> 'x stream_step \<Rightarrow> 'x \<Rightarrow> ZSTD_outBuffer \<Rightarrow> ZSTD_inBuffer \<Rightarrow> string
     \<Rightarrow> (size_t \<times> string + 'x \<times> ZSTD_outBuffer \<times> ZSTD_inBuffer \<times> string) option" where
  "consume_chunk isError step ctx outputBuffer inputBuffer output =
     (if in_pos inputBuffer < in_size inputBuffer
      then (case step ctx (outputBuffer\<lparr>out_pos := 0\<rparr>) inputBuffer of
              (ret, ctx', outputBuffer', inputBuffer') \<Rightarrow>
                if isError ret then Some (Inl (ret, output))
                else consume_chunk isError step ctx' outputBuffer' inputBuffer'
                       (output @ take (out_pos outputBuffer') (out_dst outputBuffer')))
      else Some (Inr (ctx, outputBuffer, inputBuffer, output)))"

text \<open>The outer loop \<open>while (input.good())\<close>.\<close>

partial_function (option) read_loop ::
  "(size_t \<Rightarrow> bool) \<Rightarrow> 'x stream_step \<Rightarrow> nat \<Rightarrow> istream \<Rightarrow> 'x \<Rightarrow> ZSTD_outBuffer
     \<Rightarrow> ZSTD_inBuffer \<Rightarrow> string
     \<Rightarrow> (size_t \<times> string + 'x \<times> ZSTD_outBuffer \<times> string) option" where
  "read_loop isError step bufferSize input ctx outputBuffer inputBuffer output =
     (if is_good input
      then (case istream_read input bufferSize of
              (chunk, input') \<Rightarrow>
                Option.bind
                  (consume_chunk isError step ctx outputBuffer
                     (inputBuffer\<lparr>in_src := store (in_src inputBuffer) chunk,
                                  in_size := length chunk, in_pos := 0\<rparr>) output)
                  (\<lambda>r. case r of
                         Inl err \<Rightarrow> Some (Inl err)
                       | Inr (ctx', outputBuffer', inputBuffer', output') \<Rightarrow>
                           read_loop isError step bufferSize input' ctx' outputBuffer'
                             inputBuffer' output'))
      else Some (Inr (ctx, outputBuffer, output)))"

definition compress_error :: "('c, 'd) zstd \<Rightarrow> size_t \<Rightarrow> exn" where
  "compress_error z ret = runtime_error (''Compression error: '' @ ZSTD_getErrorName z ret)"

definition decompress_error :: "('c, 'd) zstd \<Rightarrow> size_t \<Rightarrow> exn" where
  "decompress_error z ret = runtime_error (''Decompression error: '' @ ZSTD_getErrorName z ret)"

text \<open>
  The body shared by \<open>compressStream\<close> and \<open>advancedCompressStream\<close>: the context, the two
  buffers of \<open>ZSTD_CStreamOutSize()\<close> bytes, the loops, one call of \<open>ZSTD_endStream\<close>, the
  release of the context, and then the closing brace.
\<close>

definition compress_stream_body ::
  "('c, 'd) zstd \<Rightarrow> 'c stream_step \<Rightarrow> nat \<Rightarrow> istream \<Rightarrow> stream_run option" where
  "compress_stream_body z step mx input =
     (case ZSTD_createCCtx z of
        None \<Rightarrow>
          Some \<lparr>outcome = Threw (runtime_error ''Failed to create ZSTD compression context''),
                output_held = [], ctx_log = []\<rparr>
      | Some cctx \<Rightarrow>
          (case vector_fill mx (unat (ZSTD_CStreamOutSize z)) of
             Inl e \<Rightarrow> Some \<lparr>outcome = Threw e, output_held = [], ctx_log = [Created]\<rparr>
           | Inr inBuffer \<Rightarrow>
               (case vector_fill mx (unat (ZSTD_CStreamOutSize z)) of
                  Inl e \<Rightarrow> Some \<lparr>outcome = Threw e, output_held = [], ctx_log = [Created]\<rparr>
                | Inr outBuffer \<Rightarrow>
                    Option.bind
                      (read_loop (ZSTD_isError z) step (unat (ZSTD_CStreamOutSize z)) input cctx
                         \<lparr>out_dst = outBuffer, out_size = length outBuffer, out_pos = 0\<rparr>
                         \<lparr>in_src = inBuffer, in_size = 0, in_pos = 0\<rparr> [])
                      (\<lambda>r. case r of
                             Inl (ret, output) \<Rightarrow>
                               Some \<lparr>outcome = Threw (compress_error z ret),
                                     output_held = output, ctx_log = [Created, Freed]\<rparr>
                           | Inr (cctx', outputBuffer, output) \<Rightarrow>
                               (case ZSTD_endStream z cctx' (outputBuffer\<lparr>out_pos := 0\<rparr>) of
                                  (ret, cctx'', outputBuffer') \<Rightarrow>
                                    if ZSTD_isError z ret
                                    then Some \<lparr>outcome = Threw (compress_error z ret),
                                               output_held = output,
                                               ctx_log = [Created, Freed]\<rparr>
                                    else Some \<lparr>outcome = NoReturn,
                                               output_held =
                                                 output @ take (out_pos outputBuffer')
                                                            (out_dst outputBuffer'),
                                               ctx_log = [Created, Freed]\<rparr>)))))"

definition compressStream :: "('c, 'd) zstd \<Rightarrow> nat \<Rightarrow> istream \<Rightarrow> stream_run option" where
  "compressStream z mx input =
     compress_stream_body z
       (\<lambda>cctx outputBuffer inputBuffer.
          ZSTD_compressStream2 z cctx outputBuffer inputBuffer ZSTD_e_continue) mx input"

definition advancedCompressStream :: "('c, 'd) zstd \<Rightarrow> nat \<Rightarrow> istream \<Rightarrow> stream_run option" where
  "advancedCompressStream z mx input =
     compress_stream_body z (ZSTD_compressStream z) mx input"

text \<open>
  \<open>decompressStream\<close> and \<open>advancedDecompressStream\<close> have the same text: the buffers have
  \<open>ZSTD_DStreamOutSize()\<close> bytes, the primitive is \<open>ZSTD_decompressStream\<close>, and after the
  loops the context is released. The last return value of the primitive is not looked at.
\<close>

definition decompressStream :: "('c, 'd) zstd \<Rightarrow> nat \<Rightarrow> istream \<Rightarrow> stream_run option" where
  "decompressStream z mx input =
     (case ZSTD_createDCtx z of
        None \<Rightarrow>
          Some \<lparr>outcome = Threw (runtime_error ''Failed to create ZSTD decompression context''),
                output_held = [], ctx_log = []\<rparr>
      | Some dctx \<Rightarrow>
          (case vector_fill mx (unat (ZSTD_DStreamOutSize z)) of
             Inl e \<Rightarrow> Some \<lparr>outcome = Threw e, output_held = [], ctx_log = [Created]\<rparr>
           | Inr inBuffer \<Rightarrow>
               (case vector_fill mx (unat (ZSTD_DStreamOutSize z)) of
                  Inl e \<Rightarrow> Some \<lparr>outcome = Threw e, output_held = [], ctx_log = [Created]\<rparr>
                | Inr outBuffer \<Rightarrow>
                    Option.bind
                      (read_loop (ZSTD_isError z) (ZSTD_decompressStream z)
                         (unat (ZSTD_DStreamOutSize z)) input dctx
                         \<lparr>out_dst = outBuffer, out_size = length outBuffer, out_pos = 0\<rparr>
                         \<lparr>in_src = inBuffer, in_size = 0, in_pos = 0\<rparr> [])
                      (\<lambda>r. case r of
                             Inl (ret, output) \<Rightarrow>
                               Some \<lparr>outcome = Threw (decompress_error z ret),
                                     output_held = output, ctx_log = [Created, Freed]\<rparr>
                           | Inr (dctx', outputBuffer, output) \<Rightarrow>
                               Some \<lparr>outcome = NoReturn, output_held = output,
                                     ctx_log = [Created, Freed]\<rparr>))))"

definition advancedDecompressStream ::
  "('c, 'd) zstd \<Rightarrow> nat \<Rightarrow> istream \<Rightarrow> stream_run option" where
  "advancedDecompressStream z mx input = decompressStream z mx input"

subsection \<open>The response side of \<open>doFilter\<close>\<close>

text \<open>
  Of Drogon's \<open>ContentType\<close> enumeration, declared outside the repository, the filter
  names three values; every other value is \<open>CT_OTHER\<close> with its number.
\<close>

datatype ContentType =
  CT_APPLICATION_JSON | CT_TEXT_PLAIN | CT_TEXT_HTML | CT_OTHER nat

record HttpResponse =
  contentType :: ContentType
  body :: string
  headers :: "(string \<times> string) list"

definition setBody :: "HttpResponse \<Rightarrow> string \<Rightarrow> HttpResponse" where
  "setBody resp b = resp\<lparr>body := b\<rparr>"

definition addHeader :: "HttpResponse \<Rightarrow> string \<Rightarrow> string \<Rightarrow> HttpResponse" where
  "addHeader resp field v = resp\<lparr>headers := headers resp @ [(field, v)]\<rparr>"

definition shouldCompress :: "HttpResponse \<Rightarrow> bool" where
  "shouldCompress resp \<longleftrightarrow>
     (contentType resp = CT_APPLICATION_JSON
        \<or> contentType resp = CT_TEXT_PLAIN
        \<or> contentType resp = CT_TEXT_HTML)
     \<and> 1024 < length (body resp)"

text \<open>
  The closure that \<open>doFilter\<close> stores in \<open>fcb\<close>: the value is the response it hands to
  the callback it wraps. The \<open>catch\<close> clause takes every \<open>std::exception\<close>.
\<close>

definition responseCallback :: "('c, 'd) zstd \<Rightarrow> nat \<Rightarrow> HttpResponse \<Rightarrow> HttpResponse" where
  "responseCallback z mx resp =
     (if shouldCompress resp
      then (if body resp \<noteq> []
            then (case compressData z mx (body resp) of
                    Inr compressed \<Rightarrow>
                      addHeader (setBody resp compressed) ''Content-Encoding'' ''zstd''
                  | Inl e \<Rightarrow> resp)
            else resp)
      else resp)"

subsection \<open>The size hint\<close>

text \<open>
  Both one-shot decompression functions compare the value of \<open>ZSTD_getFrameContentSize\<close>
  with the two sentinels before they use it as a size. \<open>sizeHint\<close> names the three cases
  as the spec does.
\<close>

datatype SizeHint = KnownSize nat | UnknownSize | InvalidFrame

definition sizeHint :: "('c, 'd) zstd \<Rightarrow> string \<Rightarrow> SizeHint" where
  "sizeHint z frame =
     (if ZSTD_getFrameContentSize z frame = ZSTD_CONTENTSIZE_ERROR then InvalidFrame
      else if ZSTD_getFrameContentSize z frame = ZSTD_CONTENTSIZE_UNKNOWN then UnknownSize
      else KnownSize (unat (ZSTD_getFrameContentSize z frame)))"

subsection \<open>What the single-pass calls of the library promise\<close>

text \<open>
  Modelled from the spec: \<open>ZSTD_compressBound\<close> and \<open>ZSTD_compress\<close> belong to libzstd,
  which is not in the repository. Section 4.1 of the spec makes the bound a worst-case
  upper bound on the compressed size for every level, and section 4.2 has the compressor
  report the size it produced: for the call \<open>compressData\<close> makes on \<open>P\<close>, a code that
  is not an error is the number of bytes written and does not exceed the bound.
\<close>

definition compress_within_bound :: "('c, 'd) zstd \<Rightarrow> string \<Rightarrow> bool" where
  "compress_within_bound z P \<longleftrightarrow>
     (case ZSTD_compress z (ZSTD_compressBound z (of_nat (length P))) P COMPRESSION_LEVEL of
        (cSize, written) \<Rightarrow>
          \<not> ZSTD_isError z cSize \<longrightarrow>
            length written = unat cSize
            \<and> unat cSize \<le> unat (ZSTD_compressBound z (of_nat (length P))))"

text \<open>
  Modelled from the spec: \<open>ZSTD_getFrameContentSize\<close> and the frame format belong to
  libzstd, which is not in the repository. Sections 3 and 8 of the spec (oracle agreement):
  the frame a single-pass compression of \<open>P\<close> writes carries the length of \<open>P\<close> in its
  header.
\<close>

definition frame_embeds_size :: "('c, 'd) zstd \<Rightarrow> string \<Rightarrow> bool" where
  "frame_embeds_size z P \<longleftrightarrow>
     (case ZSTD_compress z (ZSTD_compressBound z (of_nat (length P))) P COMPRESSION_LEVEL of
        (cSize, written) \<Rightarrow>
          \<not> ZSTD_isError z cSize \<longrightarrow>
            ZSTD_getFrameContentSize z written = of_nat (length P))"

text \<open>
  Modelled from the spec: \<open>ZSTD_decompress\<close> belongs to libzstd, which is not in the
  repository. Section 1 of the spec assumes an established block codec: handed the frame
  that a single-pass compression of \<open>P\<close> wrote and room for \<open>len(P)\<close> bytes, the
  decompressor writes \<open>P\<close> and reports \<open>len(P)\<close>, which is not an error code.
\<close>

definition library_round_trip :: "('c, 'd) zstd \<Rightarrow> string \<Rightarrow> bool" where
  "library_round_trip z P \<longleftrightarrow>
     (case ZSTD_compress z (ZSTD_compressBound z (of_nat (length P))) P COMPRESSION_LEVEL of
        (cSize, written) \<Rightarrow>
          \<not> ZSTD_isError z cSize \<longrightarrow>
            ZSTD_decompress z (of_nat (length P)) written = (of_nat (length P), P)
            \<and> \<not> ZSTD_isError z (of_nat (length P)))"

subsection \<open>A reference codec\<close>

text \<open>
  An instance of the interface, to run the functions on concrete inputs: a codec that
  stores the payload. A frame is the magic byte \<open>Z\<close>, a descriptor (\<open>K\<close> followed by
  the content size in eight little-endian bytes, or \<open>U\<close> when the size is not recorded),
  one block \<open>D c\<close> for every payload byte \<open>c\<close>, and the end mark \<open>E\<close>. The single-pass
  compressor records the size, the streaming compressor does not. As in libzstd, error
  codes are the top values of \<open>size_t\<close>, the size oracle reads the header only, the
  single-pass decompressor reports an error unless it regenerated exactly the size that
  the header records, and the streaming decompressor returns a non-zero hint while the
  frame is incomplete.
\<close>

definition le64 :: "u64 \<Rightarrow> string" where
  "le64 w = map (\<lambda>i. char_of (unat (drop_bit (8 * i) w))) [0..<8]"

definition un_le64 :: "string \<Rightarrow> u64" where
  "un_le64 cs = foldr (\<lambda>c acc. of_char c + 256 * acc) cs 0"

definition stored_error :: "nat \<Rightarrow> size_t" where
  "stored_error n = 0 - of_nat n"

definition stored_isError :: "size_t \<Rightarrow> bool" where
  "stored_isError code \<longleftrightarrow> 0 - 120 < code"

definition stored_getErrorName :: "size_t \<Rightarrow> string" where
  "stored_getErrorName code =
     (if code = stored_error 20 then ''Data corruption detected''
      else if code = stored_error 42 then ''Parameter is out of bound''
      else if code = stored_error 70 then ''Destination buffer is too small''
      else if code = stored_error 72 then ''Src size is incorrect''
      else if stored_isError code then ''Error (generic)''
      else ''No error detected'')"

definition stored_blocks :: "string \<Rightarrow> string" where
  "stored_blocks src = concat (map (\<lambda>c. [CHR ''D'', c]) src)"

definition stored_frame :: "string \<Rightarrow> string" where
  "stored_frame src = ''ZK'' @ le64 (of_nat (length src)) @ stored_blocks src @ ''E''"

definition stored_compressBound :: "size_t \<Rightarrow> size_t" where
  "stored_compressBound srcSize = 2 * srcSize + 11"

definition stored_compress :: "size_t \<Rightarrow> string \<Rightarrow> int \<Rightarrow> size_t \<times> string" where
  "stored_compress dstCapacity src level =
     (if 22 < level then (stored_error 42, [])
      else if unat dstCapacity < length (stored_frame src) then (stored_error 70, [])
      else (of_nat (length (stored_frame src)), stored_frame src))"

fun stored_parse :: "string \<Rightarrow> (string \<times> string) option" where
  "stored_parse [] = None"
| "stored_parse (t # rest) =
     (if t = CHR ''E'' then Some ([], rest)
      else if t = CHR ''D''
      then (case rest of
              [] \<Rightarrow> None
            | c # rest' \<Rightarrow> map_option (\<lambda>(p, r). (c # p, r)) (stored_parse rest'))
      else None)"

definition stored_getFrameContentSize :: "string \<Rightarrow> u64" where
  "stored_getFrameContentSize src =
     (if take 2 src = ''ZU'' then ZSTD_CONTENTSIZE_UNKNOWN
      else if take 2 src = ''ZK'' \<and> 10 \<le> length src then un_le64 (take 8 (drop 2 src))
      else ZSTD_CONTENTSIZE_ERROR)"

definition stored_body :: "string \<Rightarrow> (string \<times> string) option" where
  "stored_body src =
     (if take 2 src = ''ZU'' then stored_parse (drop 2 src)
      else if take 2 src = ''ZK'' \<and> 10 \<le> length src then stored_parse (drop 10 src)
      else None)"

definition stored_decompress :: "size_t \<Rightarrow> string \<Rightarrow> size_t \<times> string" where
  "stored_decompress dstCapacity src =
     (case stored_body src of
        None \<Rightarrow> (stored_error 20, [])
      | Some (p, rest) \<Rightarrow>
          if rest \<noteq> [] then (stored_error 72, [])
          else if take 2 src = ''ZK'' \<and> un_le64 (take 8 (drop 2 src)) \<noteq> of_nat (length p)
          then (stored_error 20, [])
          else if unat dstCapacity < length p then (stored_error 70, [])
          else (of_nat (length p), p))"

text \<open>Writing \<open>bs\<close> at the position of an output buffer.\<close>

definition emit :: "ZSTD_outBuffer \<Rightarrow> string \<Rightarrow> ZSTD_outBuffer" where
  "emit ob bs =
     ob\<lparr>out_dst := take (out_pos ob) (out_dst ob) @ bs
                      @ drop (out_pos ob + length bs) (out_dst ob),
        out_pos := out_pos ob + length bs\<rparr>"

definition stored_compressStream ::
  "bool \<Rightarrow> ZSTD_outBuffer \<Rightarrow> ZSTD_inBuffer \<Rightarrow> size_t \<times> bool \<times> ZSTD_outBuffer \<times> ZSTD_inBuffer" where
  "stored_compressStream started ob ib =
     (let hdr = (if started then [] else ''ZU'');
          room = out_size ob - out_pos ob
      in if room < length hdr then (1, started, ob, ib)
         else
           (let n = min (in_size ib - in_pos ib) ((room - length hdr) div 2)
            in (0, True,
                emit ob (hdr @ stored_blocks (take n (drop (in_pos ib) (in_src ib)))),
                ib\<lparr>in_pos := in_pos ib + n\<rparr>)))"

definition stored_endStream :: "bool \<Rightarrow> ZSTD_outBuffer \<Rightarrow> size_t \<times> bool \<times> ZSTD_outBuffer" where
  "stored_endStream started ob =
     (let tail = (if started then [] else ''ZU'') @ ''E''
      in if out_size ob - out_pos ob < length tail then (1, started, ob)
         else (0, False, emit ob tail))"

datatype stored_dctx =
  Expect_magic | Expect_descriptor | Expect_size nat | Expect_tag | Expect_byte | Frame_done

fun advance :: "(stored_dctx \<times> nat \<times> string) option \<Rightarrow> (stored_dctx \<times> nat \<times> string) option" where
  "advance None = None"
| "advance (Some (st, n, out)) = Some (st, Suc n, out)"

fun produce :: "char \<Rightarrow> (stored_dctx \<times> nat \<times> string) option \<Rightarrow> (stored_dctx \<times> nat \<times> string) option" where
  "produce c None = None"
| "produce c (Some (st, n, out)) = Some (st, Suc n, c # out)"

fun stored_decode ::
  "stored_dctx \<Rightarrow> nat \<Rightarrow> string \<Rightarrow> (stored_dctx \<times> nat \<times> string) option" where
  "stored_decode st room [] = Some (st, 0, [])"
| "stored_decode Expect_magic room (c # cs) =
     (if c = CHR ''Z'' then advance (stored_decode Expect_descriptor room cs) else None)"
| "stored_decode Expect_descriptor room (c # cs) =
     (if c = CHR ''K'' then advance (stored_decode (Expect_size 8) room cs)
      else if c = CHR ''U'' then advance (stored_decode Expect_tag room cs)
      else None)"
| "stored_decode (Expect_size k) room (c # cs) =
     advance (stored_decode (if k \<le> 1 then Expect_tag else Expect_size (k - 1)) room cs)"
| "stored_decode Expect_tag room (c # cs) =
     (if c = CHR ''D'' then advance (stored_decode Expect_byte room cs)
      else if c = CHR ''E'' then Some (Frame_done, 1, [])
      else None)"
| "stored_decode Expect_byte room (c # cs) =
     (if room = 0 then Some (Expect_byte, 0, [])
      else produce c (stored_decode Expect_tag (room - 1) cs))"
| "stored_decode Frame_done room (c # cs) =
     (if c = CHR ''Z'' then advance (stored_decode Expect_descriptor room cs) else None)"

definition stored_decompressStream ::
  "stored_dctx \<Rightarrow> ZSTD_outBuffer \<Rightarrow> ZSTD_inBuffer
     \<Rightarrow> size_t \<times> stored_dctx \<times> ZSTD_outBuffer \<times> ZSTD_inBuffer" where
  "stored_decompressStream st ob ib =
     (case stored_decode st (out_size ob - out_pos ob)
             (take (in_size ib - in_pos ib) (drop (in_pos ib) (in_src ib))) of
        None \<Rightarrow> (stored_error 20, st, ob, ib)
      | Some (st', n, out) \<Rightarrow>
          (if st' = Frame_done then 0 else 1, st', emit ob out, ib\<lparr>in_pos := in_pos ib + n\<rparr>))"

definition stored :: "(bool, stored_dctx) zstd" where
  "stored =
     \<lparr>ZSTD_compressBound = stored_compressBound,
      ZSTD_isError = stored_isError,
      ZSTD_getErrorName = stored_getErrorName,
      ZSTD_compress = stored_compress,
      ZSTD_decompress = stored_decompress,
      ZSTD_getFrameContentSize = stored_getFrameContentSize,
      ZSTD_createCCtx = Some False,
      ZSTD_createDCtx = Some Expect_magic,
      ZSTD_compressCCtx = (\<lambda>cctx. stored_compress),
      ZSTD_decompressDCtx = (\<lambda>dctx. stored_decompress),
      ZSTD_CStreamOutSize = 8,
      ZSTD_DStreamOutSize = 8,
      ZSTD_compressStream2 = (\<lambda>cctx ob ib mode. stored_compressStream cctx ob ib),
      ZSTD_compressStream = stored_compressStream,
      ZSTD_endStream = stored_endStream,
      ZSTD_decompressStream = stored_decompressStream\<rparr>"


declare consume_chunk.simps [code]

declare read_loop.simps [code]

subsection \<open>Progress and calls of a streaming primitive\<close>

text \<open>
  The loops call the primitive with an output buffer of \<open>n\<close> bytes at position 0 and
  an input buffer of \<open>n\<close> bytes that holds unconsumed input. A primitive advances when
  every such call that reports no error moves the input position forward and leaves the
  input and the sizes of the two buffers alone. The loops end for such a primitive; for one
  that consumes nothing they run forever.
\<close>

definition advances :: "nat \<Rightarrow> (size_t \<Rightarrow> bool) \<Rightarrow> 'x stream_step \<Rightarrow> bool" where
  "advances n isError step \<longleftrightarrow>
     (\<forall>ctx ob ib ret ctx' ob' ib'.
        out_size ob = n \<longrightarrow> out_pos ob = 0 \<longrightarrow>
        length (in_src ib) = n \<longrightarrow> in_size ib \<le> n \<longrightarrow> in_pos ib < in_size ib \<longrightarrow>
        step ctx ob ib = (ret, ctx', ob', ib') \<longrightarrow> \<not> isError ret \<longrightarrow>
          out_size ob' = n \<and> in_src ib' = in_src ib \<and> in_size ib' = in_size ib
          \<and> in_pos ib < in_pos ib')"

text \<open>
  The same primitive, keeping beside its context the values it has returned so far, one for
  each call. The loops are run with it to name the calls they make; nothing else of the
  call changes.
\<close>

definition logged :: "'x stream_step \<Rightarrow> ('x \<times> size_t list) stream_step" where
  "logged step =
     (\<lambda>(ctx, rets) ob ib.
        case step ctx ob ib of
          (ret, ctx', ob', ib') \<Rightarrow> (ret, (ctx', rets @ [ret]), ob', ib'))"

text \<open>
  The calls of \<open>ZSTD_decompressStream\<close> that \<open>decompressStream\<close> makes on an input:
  \<open>Inl ret\<close> when a call returned the error code \<open>ret\<close>, which ends the loops, and
  otherwise \<open>Inr\<close> of the values returned, in the order of the calls. Without a context
  or without buffers no call is made.
\<close>

definition decompressStream_calls ::
  "('c, 'd) zstd \<Rightarrow> nat \<Rightarrow> istream \<Rightarrow> (size_t + size_t list) option" where
  "decompressStream_calls z mx input =
     (case ZSTD_createDCtx z of
        None \<Rightarrow> Some (Inr [])
      | Some dctx \<Rightarrow>
          (case vector_fill mx (unat (ZSTD_DStreamOutSize z)) of
             Inl e \<Rightarrow> Some (Inr [])
           | Inr buffer \<Rightarrow>
               map_option
                 (\<lambda>r. case r of
                        Inl (ret, outp) \<Rightarrow> Inl ret
                      | Inr ((dctx', rets), outputBuffer, outp) \<Rightarrow> Inr rets)
                 (read_loop (ZSTD_isError z) (logged (ZSTD_decompressStream z))
                    (unat (ZSTD_DStreamOutSize z)) input (dctx, [])
                    \<lparr>out_dst = buffer, out_size = length buffer, out_pos = 0\<rparr>
                    \<lparr>in_src = buffer, in_size = 0, in_pos = 0\<rparr> [])))"

section \<open>Properties\<close>

subsection \<open>Strings and sizes\<close>

lemma store_fits:
  "length written \<le> n \<Longrightarrow> take (length written) (store (replicate n c) written) = written"
  by (simp add: store_def)

lemma length_string_resize:
  "string_resize mx n s = Inr t \<Longrightarrow> length t = n"
  by (auto simp: string_resize_def split: if_splits)

lemma string_resize_written:
  "length written \<le> n \<Longrightarrow> n \<le> mx \<Longrightarrow> length written \<le> mx \<Longrightarrow>
     string_resize mx (length written) (store (replicate n c) written) = Inr written"
  by (simp add: string_resize_def store_def)

lemma compressData_Inr:
  assumes "compressData z mx P = Inr F"
  obtains cSize written where
    "ZSTD_compress z (ZSTD_compressBound z (of_nat (length P))) P COMPRESSION_LEVEL = (cSize, written)"
    "\<not> ZSTD_isError z cSize"
    "unat (ZSTD_compressBound z (of_nat (length P))) \<le> mx"
    "string_resize mx (unat cSize)
       (store (replicate (unat (ZSTD_compressBound z (of_nat (length P)))) (CHR 0x00)) written) = Inr F"
  using assms
  by (auto simp: compressData_def string_fill_def split: sum.splits prod.splits if_splits)

lemma compressData_frame:
  assumes "compressData z mx P = Inr F" and "compress_within_bound z P"
  shows "\<exists>cSize. ZSTD_compress z (ZSTD_compressBound z (of_nat (length P))) P COMPRESSION_LEVEL = (cSize, F)
           \<and> \<not> ZSTD_isError z cSize"
proof -
  from assms(1) obtain cSize written where
    c: "ZSTD_compress z (ZSTD_compressBound z (of_nat (length P))) P COMPRESSION_LEVEL = (cSize, written)"
    and ok: "\<not> ZSTD_isError z cSize"
    and mx: "unat (ZSTD_compressBound z (of_nat (length P))) \<le> mx"
    and r: "string_resize mx (unat cSize)
       (store (replicate (unat (ZSTD_compressBound z (of_nat (length P)))) (CHR 0x00)) written) = Inr F"
    by (rule compressData_Inr)
  from assms(2) c ok have l: "length written = unat cSize"
    and b: "unat cSize \<le> unat (ZSTD_compressBound z (of_nat (length P)))"
    by (simp_all add: compress_within_bound_def)
  from l b mx have "string_resize mx (unat cSize)
       (store (replicate (unat (ZSTD_compressBound z (of_nat (length P)))) (CHR 0x00)) written) = Inr written"
    using string_resize_written [of written "unat (ZSTD_compressBound z (of_nat (length P)))" mx "CHR 0x00"]
    by simp
  with r have "F = written" by simp
  with c ok show ?thesis by blast
qed

lemma unat_of_nat_length:
  "n < 2 ^ 64 - 2 \<Longrightarrow> unat (of_nat n :: 64 word) = n"
  by (simp add: unsigned_of_nat take_bit_nat_eq_self)

lemma unat_sentinels:
  "unat ZSTD_CONTENTSIZE_ERROR = 2 ^ 64 - 2" "unat ZSTD_CONTENTSIZE_UNKNOWN = 2 ^ 64 - 1"
  by (simp_all add: ZSTD_CONTENTSIZE_ERROR_def ZSTD_CONTENTSIZE_UNKNOWN_def
        unsigned_minus_1_eq_mask mask_eq_exp_minus_1)

lemma of_nat_not_sentinel:
  assumes "n < 2 ^ 64 - 2"
  shows "(of_nat n :: 64 word) \<noteq> ZSTD_CONTENTSIZE_ERROR"
    and "(of_nat n :: 64 word) \<noteq> ZSTD_CONTENTSIZE_UNKNOWN"
proof -
  have u: "unat (of_nat n :: 64 word) = n" using assms by (rule unat_of_nat_length)
  show "(of_nat n :: 64 word) \<noteq> ZSTD_CONTENTSIZE_ERROR"
  proof
    assume "(of_nat n :: 64 word) = ZSTD_CONTENTSIZE_ERROR"
    then have "unat (of_nat n :: 64 word) = 2 ^ 64 - 2" by (simp add: unat_sentinels)
    with u assms show False by simp
  qed
  show "(of_nat n :: 64 word) \<noteq> ZSTD_CONTENTSIZE_UNKNOWN"
  proof
    assume "(of_nat n :: 64 word) = ZSTD_CONTENTSIZE_UNKNOWN"
    then have "unat (of_nat n :: 64 word) = 2 ^ 64 - 1" by (simp add: unat_sentinels)
    with u assms show False by simp
  qed
qed

subsection \<open>One-shot compression and decompression\<close>

text \<open>
  C1. Round trip: when \<open>compressData\<close> returns a frame for the payload \<open>P\<close>,
  \<open>decompressData\<close> of that frame returns exactly \<open>P\<close>. The level is the constant
  \<open>COMPRESSION_LEVEL\<close>; the library is held to what the spec says of its single-pass
  calls on \<open>P\<close>, and \<open>P\<close> is a string the platform can hold.
\<close>

theorem decompressData_inverts_compressData:
  assumes "compressData z mx P = Inr F"
    and "compress_within_bound z P" and "frame_embeds_size z P" and "library_round_trip z P"
    and "length P < 2 ^ 64 - 2" and "length P \<le> mx"
  shows "decompressData z mx F = Inr P"
proof -
  from assms(1,2) obtain cSize where
    c: "ZSTD_compress z (ZSTD_compressBound z (of_nat (length P))) P COMPRESSION_LEVEL = (cSize, F)"
    and ok: "\<not> ZSTD_isError z cSize"
    using compressData_frame by blast
  from assms(3) c ok have size: "ZSTD_getFrameContentSize z F = of_nat (length P)"
    by (simp add: frame_embeds_size_def)
  from assms(4) c ok
  have d: "ZSTD_decompress z (of_nat (length P)) F = (of_nat (length P), P)"
    and dok: "\<not> ZSTD_isError z (of_nat (length P))"
    by (simp_all add: library_round_trip_def)
  have u: "unat (of_nat (length P) :: 64 word) = length P"
    using assms(5) by (rule unat_of_nat_length)
  have r: "string_resize mx (length P) (store (replicate (length P) (CHR 0x00)) P) = Inr P"
    using string_resize_written [of P "length P" mx] assms(6) by simp
  show ?thesis
    using size d dok u r assms(5,6)
    by (simp add: decompressData_def of_nat_not_sentinel string_fill_def)
qed

theorem decompressData_inverts_compressData_witness:
  "compressData stored 1000 ''abc'' = Inr (stored_frame ''abc'')
   \<and> decompressData stored 1000 (stored_frame ''abc'') = Inr ''abc''"
proof -
  have c: "compressData stored 1000 ''abc'' = Inr (stored_frame ''abc'')" by code_simp
  have b: "compress_within_bound stored ''abc''" by code_simp
  have e: "frame_embeds_size stored ''abc''" by code_simp
  have r: "library_round_trip stored ''abc''" by code_simp
  have l: "length ''abc'' < 2 ^ 64 - 2" "length ''abc'' \<le> 1000" by simp_all
  from decompressData_inverts_compressData [OF c b e r l] c show ?thesis by simp
qed

text \<open>
  C6. Bound: a frame that \<open>compressData\<close> returns for \<open>P\<close> is at most
  \<open>ZSTD_compressBound(len(P))\<close> bytes long, the bound being, as the spec has it, never
  below the size the compressor reports.
\<close>

theorem compressData_within_bound:
  assumes "compressData z mx P = Inr F" and "compress_within_bound z P"
  shows "length F \<le> unat (ZSTD_compressBound z (of_nat (length P)))"
proof -
  from assms(1) obtain cSize written where
    c: "ZSTD_compress z (ZSTD_compressBound z (of_nat (length P))) P COMPRESSION_LEVEL = (cSize, written)"
    and ok: "\<not> ZSTD_isError z cSize"
    and r: "string_resize mx (unat cSize)
       (store (replicate (unat (ZSTD_compressBound z (of_nat (length P)))) (CHR 0x00)) written) = Inr F"
    by (rule compressData_Inr)
  from r have "length F = unat cSize" by (rule length_string_resize)
  moreover from assms(2) c ok have "unat cSize \<le> unat (ZSTD_compressBound z (of_nat (length P)))"
    by (simp add: compress_within_bound_def)
  ultimately show ?thesis by simp
qed

theorem compressData_within_bound_witness:
  "compressData stored 1000 ''abc'' = Inr (stored_frame ''abc'')
   \<and> length (stored_frame ''abc'') \<le> unat (ZSTD_compressBound stored (of_nat (length ''abc'')))"
proof -
  have c: "compressData stored 1000 ''abc'' = Inr (stored_frame ''abc'')" by code_simp
  have b: "compress_within_bound stored ''abc''" by code_simp
  from compressData_within_bound [OF c b] c show ?thesis by simp
qed

text \<open>
  C7. Oracle agreement: the size hint read from a frame that \<open>compressData\<close> returns for
  \<open>P\<close> is \<open>KnownSize(len(P))\<close>, the library embedding the length in the header of a
  single-pass frame as the spec says.
\<close>

theorem compressData_frame_embeds_size:
  assumes "compressData z mx P = Inr F"
    and "compress_within_bound z P" and "frame_embeds_size z P"
    and "length P < 2 ^ 64 - 2"
  shows "sizeHint z F = KnownSize (length P)"
proof -
  from assms(1,2) obtain cSize where
    c: "ZSTD_compress z (ZSTD_compressBound z (of_nat (length P))) P COMPRESSION_LEVEL = (cSize, F)"
    and ok: "\<not> ZSTD_isError z cSize"
    using compressData_frame by blast
  from assms(3) c ok have "ZSTD_getFrameContentSize z F = of_nat (length P)"
    by (simp add: frame_embeds_size_def)
  with assms(4) show ?thesis
    by (simp add: sizeHint_def of_nat_not_sentinel unat_of_nat_length)
qed

theorem compressData_frame_embeds_size_witness:
  "compressData stored 1000 ''abc'' = Inr (stored_frame ''abc'')
   \<and> sizeHint stored (stored_frame ''abc'') = KnownSize (length ''abc'')"
proof -
  have c: "compressData stored 1000 ''abc'' = Inr (stored_frame ''abc'')" by code_simp
  have b: "compress_within_bound stored ''abc''" by code_simp
  have e: "frame_embeds_size stored ''abc''" by code_simp
  have l: "length ''abc'' < 2 ^ 64 - 2" by simp
  from compressData_frame_embeds_size [OF c b e l] c show ?thesis by simp
qed

subsection \<open>Frames of known, unknown and invalid size\<close>

lemma sizeHint_KnownSize:
  assumes "sizeHint z data = KnownSize n"
  shows "ZSTD_getFrameContentSize z data \<noteq> ZSTD_CONTENTSIZE_ERROR"
    and "ZSTD_getFrameContentSize z data \<noteq> ZSTD_CONTENTSIZE_UNKNOWN"
    and "unat (ZSTD_getFrameContentSize z data) = n"
  using assms by (auto simp: sizeHint_def split: if_splits)

lemma sizeHint_UnknownSize:
  assumes "sizeHint z data = UnknownSize"
  shows "ZSTD_getFrameContentSize z data \<noteq> ZSTD_CONTENTSIZE_ERROR"
    and "ZSTD_getFrameContentSize z data = ZSTD_CONTENTSIZE_UNKNOWN"
  using assms by (auto simp: sizeHint_def split: if_splits)

lemma sizeHint_InvalidFrame:
  assumes "sizeHint z data = InvalidFrame"
  shows "ZSTD_getFrameContentSize z data = ZSTD_CONTENTSIZE_ERROR"
  using assms by (auto simp: sizeHint_def split: if_splits)

lemma decompressData_KnownSize:
  assumes "sizeHint z data = KnownSize n"
    and "ZSTD_decompress z (ZSTD_getFrameContentSize z data) data = (dSize, written)"
  shows "decompressData z mx data =
           (if mx < n then Inl length_error
            else if ZSTD_isError z dSize
            then Inl (runtime_error (''Decompression error: '' @ ZSTD_getErrorName z dSize))
            else string_resize mx (unat dSize) (store (replicate n (CHR 0x00)) written))"
  using sizeHint_KnownSize [OF assms(1)] assms(2)
  by (simp add: decompressData_def string_fill_def)


text \<open>
  The functions themselves do not compare the size the decompressor reports with the size
  in the header: they trim the buffer of \<open>n\<close> bytes to the reported size. A decompressor
  that keeps to the capacity it is given therefore never yields a payload longer than
  \<open>n\<close>.
\<close>

lemma decompressData_never_longer:
  assumes "sizeHint z data = KnownSize n"
    and "ZSTD_decompress z (ZSTD_getFrameContentSize z data) data = (dSize, written)"
    and "\<not> ZSTD_isError z dSize \<longrightarrow> unat dSize \<le> n"
    and "decompressData z mx data = Inr P"
  shows "length P \<le> n"
  using assms(3,4) unfolding decompressData_KnownSize [OF assms(1,2)]
  by (auto split: if_splits dest: length_string_resize)



text \<open>
  C5, as amended. One-shot decompression rejects a frame whose size hint is
  \<open>UnknownSize\<close> or \<open>InvalidFrame\<close> with an error and returns no payload.
  \<open>advancedDecompressData\<close> uses a message of its own for each of the two cases (and
  releases its context first); \<open>decompressData\<close> uses the same message for both.
\<close>

theorem size_hint_rejections:
  "(case sizeHint z data of
      KnownSize n \<Rightarrow> True
    | UnknownSize \<Rightarrow>
        decompressData z mx data = Inl (runtime_error ''Invalid compressed data'')
        \<and> (ZSTD_createDCtx z \<noteq> None \<longrightarrow>
             advancedDecompressData z mx data =
               (Inl (runtime_error ''Original size unknown''), [Created, Freed]))
    | InvalidFrame \<Rightarrow>
        decompressData z mx data = Inl (runtime_error ''Invalid compressed data'')
        \<and> (ZSTD_createDCtx z \<noteq> None \<longrightarrow>
             advancedDecompressData z mx data =
               (Inl (runtime_error ''Invalid data for decompression''), [Created, Freed])))"
  by (auto simp: decompressData_def advancedDecompressData_def
           dest: sizeHint_UnknownSize sizeHint_InvalidFrame split: SizeHint.splits)

theorem size_hint_rejections_witness:
  "sizeHint stored ''ZUDaE'' = UnknownSize
   \<and> decompressData stored 1000 ''ZUDaE'' = Inl (runtime_error ''Invalid compressed data'')
   \<and> advancedDecompressData stored 1000 ''ZUDaE''
       = (Inl (runtime_error ''Original size unknown''), [Created, Freed])
   \<and> sizeHint stored ''abc'' = InvalidFrame
   \<and> decompressData stored 1000 ''abc'' = Inl (runtime_error ''Invalid compressed data'')
   \<and> advancedDecompressData stored 1000 ''abc''
       = (Inl (runtime_error ''Invalid data for decompression''), [Created, Freed])"
proof -
  have u: "sizeHint stored ''ZUDaE'' = UnknownSize" by code_simp
  have i: "sizeHint stored ''abc'' = InvalidFrame" by code_simp
  have c: "ZSTD_createDCtx stored \<noteq> None" by code_simp
  from size_hint_rejections [where z = stored and data = "''ZUDaE''" and mx = 1000]
    size_hint_rejections [where z = stored and data = "''abc''" and mx = 1000] u i c
  show ?thesis by simp
qed

text \<open>
  The claim as stated fails for \<open>decompressData\<close>: a frame of unknown size and an
  invalid frame end in the same error.
\<close>

theorem decompressData_same_error_counterexample:
  "sizeHint stored ''ZUDaE'' = UnknownSize \<and> sizeHint stored ''abc'' = InvalidFrame
   \<and> decompressData stored 1000 ''ZUDaE'' = decompressData stored 1000 ''abc''"
  by code_simp

subsection \<open>The variants with an explicit context\<close>

text \<open>
  C9. With a context at hand, and the library's context variants computing what its plain
  single-pass calls compute on the given arguments, \<open>advancedCompressData\<close> ends as
  \<open>compressData\<close> does (the same frame or the same error), and
  \<open>advancedDecompressData\<close> returns a payload exactly when \<open>decompressData\<close> does,
  and the same one.
\<close>

theorem advanced_agrees_with_basic:
  assumes "ZSTD_createCCtx z = Some cctx" and "ZSTD_createDCtx z = Some dctx"
    and "ZSTD_compressCCtx z cctx (ZSTD_compressBound z (of_nat (length data))) data COMPRESSION_LEVEL
         = ZSTD_compress z (ZSTD_compressBound z (of_nat (length data))) data COMPRESSION_LEVEL"
    and "ZSTD_decompressDCtx z dctx (ZSTD_getFrameContentSize z frame) frame
         = ZSTD_decompress z (ZSTD_getFrameContentSize z frame) frame"
  shows "fst (advancedCompressData z mx data) = compressData z mx data
         \<and> (\<forall>P. fst (advancedDecompressData z mx frame) = Inr P
                  \<longleftrightarrow> decompressData z mx frame = Inr P)"
proof -
  have a: "fst (advancedCompressData z mx data) = compressData z mx data"
    using assms(1,3)
    by (auto simp: advancedCompressData_def compressData_def string_fill_def
             split: prod.splits)
  have b: "fst (advancedDecompressData z mx frame) = Inr P \<longleftrightarrow> decompressData z mx frame = Inr P"
    for P
    using assms(2,4)
    by (auto simp: advancedDecompressData_def decompressData_def string_fill_def
             split: prod.splits)
  from a b show ?thesis by blast
qed

theorem advanced_agrees_with_basic_witness:
  "fst (advancedCompressData stored 1000 ''abc'') = Inr (stored_frame ''abc'')
   \<and> fst (advancedDecompressData stored 1000 (stored_frame ''abc'')) = Inr ''abc''"
proof -
  have c: "ZSTD_createCCtx stored = Some False" by code_simp
  have d: "ZSTD_createDCtx stored = Some Expect_magic" by code_simp
  have e: "ZSTD_compressCCtx stored False (ZSTD_compressBound stored (of_nat (length ''abc'')))
             ''abc'' COMPRESSION_LEVEL
           = ZSTD_compress stored (ZSTD_compressBound stored (of_nat (length ''abc''))) ''abc''
               COMPRESSION_LEVEL" by (simp add: stored_def)
  have f: "ZSTD_decompressDCtx stored Expect_magic
              (ZSTD_getFrameContentSize stored (stored_frame ''abc'')) (stored_frame ''abc'')
           = ZSTD_decompress stored (ZSTD_getFrameContentSize stored (stored_frame ''abc''))
               (stored_frame ''abc'')"
    by (simp add: stored_def)
  have g: "compressData stored 1000 ''abc'' = Inr (stored_frame ''abc'')" by code_simp
  have h: "decompressData stored 1000 (stored_frame ''abc'') = Inr ''abc''" by code_simp
  from advanced_agrees_with_basic [OF c d e f, of 1000] g h
  show ?thesis by simp
qed

text \<open>
  The context of \<open>advancedDecompressData\<close> is released on every path but one: when the
  string of the size read from the header cannot be constructed, the exception leaves the
  function between \<open>ZSTD_createDCtx\<close> and \<open>ZSTD_freeDCtx\<close>.
\<close>

lemma advancedDecompressData_ctx_log:
  "snd (advancedDecompressData z mx data) =
     (if ZSTD_createDCtx z = None then []
      else if sizeHint z data \<in> {UnknownSize, InvalidFrame} then [Created, Freed]
      else if mx < unat (ZSTD_getFrameContentSize z data) then [Created]
      else [Created, Freed])"
  by (auto simp: advancedDecompressData_def sizeHint_def string_fill_def
           split: option.splits prod.splits sum.splits)

lemma oversized_header:
  "ZSTD_getFrameContentSize stored
     (''ZK'' @ [CHR 0x00, CHR 0x00, CHR 0x00, CHR 0x00, CHR 0x00, CHR 0x00, CHR 0x00, CHR 0x80] @ ''E'')
   = 9223372036854775808"
  by (simp add: stored_def stored_getFrameContentSize_def un_le64_def)

text \<open>
  C8, evaluated where the code departs from it. The header of this frame reports a content
  size of \<open>2^63\<close> bytes, more than a \<open>std::string\<close> holds (\<open>max_size()\<close> is
  \<open>2^62 - 1\<close> with libstdc++ on LP64): \<open>advancedDecompressData\<close> ends with the
  exception of the string's constructor, its context created and never released.
\<close>

theorem advancedDecompressData_leaks_context:
  "advancedDecompressData stored 4611686018427387903
     (''ZK'' @ [CHR 0x00, CHR 0x00, CHR 0x00, CHR 0x00, CHR 0x00, CHR 0x00, CHR 0x00, CHR 0x80] @ ''E'')
     = (Inl length_error, [Created])"
proof -
  have c: "ZSTD_createDCtx stored = Some Expect_magic" by (simp add: stored_def)
  show ?thesis
    unfolding advancedDecompressData_def oversized_header c
    by (simp add: string_fill_def ZSTD_CONTENTSIZE_ERROR_def ZSTD_CONTENTSIZE_UNKNOWN_def)
qed

subsection \<open>The streaming loops\<close>

text \<open>An error leaves the loops only with a code for which \<open>ZSTD_isError\<close> holds.\<close>

lemma consume_chunk_error_aux:
  assumes "consume_chunk isError step ctx outputBuffer inputBuffer outp = Some y"
  shows "\<forall>ret out. y = Inl (ret, out) \<longrightarrow> isError ret"
proof (rule consume_chunk.raw_induct
        [where P = "\<lambda>isError step ctx outputBuffer inputBuffer outp y.
                      \<forall>ret out. y = Inl (ret, out) \<longrightarrow> isError ret", OF _ assms],
       goal_cases)
  case (1 consume isErr stp c ob ib acc y)
  show ?case
  proof (cases "in_pos ib < in_size ib")
    case more: True
    obtain ret c' ob' ib' where st: "stp c (ob\<lparr>out_pos := 0\<rparr>) ib = (ret, c', ob', ib')"
      by (cases "stp c (ob\<lparr>out_pos := 0\<rparr>) ib") auto
    show ?thesis
    proof (cases "isErr ret")
      case True
      with 1(2) st more show ?thesis by auto
    next
      case False
      with 1(2) st more
      have "consume isErr stp c' ob' ib' (acc @ take (out_pos ob') (out_dst ob')) = Some y"
        by simp
      then show ?thesis by (rule 1(1))
    qed
  next
    case False
    with 1(2) show ?thesis by auto
  qed
qed

lemma consume_chunk_error:
  assumes "consume_chunk isError step ctx outputBuffer inputBuffer outp = Some (Inl (ret, out))"
  shows "isError ret"
  using consume_chunk_error_aux [OF assms] by simp

lemma read_loop_error_aux:
  assumes "read_loop isError step bufferSize input ctx outputBuffer inputBuffer outp = Some y"
  shows "\<forall>ret out. y = Inl (ret, out) \<longrightarrow> isError ret"
proof (rule read_loop.raw_induct
        [where P = "\<lambda>isError step bufferSize input ctx outputBuffer inputBuffer outp y.
                      \<forall>ret out. y = Inl (ret, out) \<longrightarrow> isError ret", OF _ assms],
       goal_cases)
  case (1 loop isErr stp n inp c ob ib acc y)
  show ?case
  proof (cases "is_good inp")
    case good: True
    obtain chunk inp' where rd: "istream_read inp n = (chunk, inp')"
      by (cases "istream_read inp n") auto
    from 1(2) good rd obtain res where
      inner: "consume_chunk isErr stp c ob
                (ib\<lparr>in_src := store (in_src ib) chunk, in_size := length chunk, in_pos := 0\<rparr>)
                acc = Some res"
      and rest: "(case res of
                    Inl err \<Rightarrow> Some (Inl err)
                  | Inr (c', ob', ib', acc') \<Rightarrow> loop isErr stp n inp' c' ob' ib' acc') = Some y"
      by (auto split: Option.bind_splits)
    show ?thesis
    proof (cases res)
      case (Inl err)
      with rest have "y = Inl err" by simp
      with inner Inl show ?thesis by (auto dest: consume_chunk_error)
    next
      case (Inr fin)
      obtain c' ob' ib' acc' where fin: "fin = (c', ob', ib', acc')"
        by (cases fin) auto
      from rest Inr fin have "loop isErr stp n inp' c' ob' ib' acc' = Some y" by simp
      then show ?thesis by (rule 1(1))
    qed
  next
    case False
    with 1(2) show ?thesis by auto
  qed
qed

lemma read_loop_error:
  assumes "read_loop isError step bufferSize input ctx outputBuffer inputBuffer outp
             = Some (Inl (ret, out))"
  shows "isError ret"
  using read_loop_error_aux [OF assms] by simp

text \<open>
  For a primitive that advances and buffers that are not empty the loops end; run with the
  logging primitive they end in the same way, and the log holds an error code only as the
  last value, the one that ended them.
\<close>

lemma advances_logged:
  assumes "advances n isError step"
  shows "advances n isError (logged step)"
  unfolding advances_def
proof (intro allI impI)
  fix ctx :: "'a \<times> size_t list" and ob ib ret ctx' ob' ib'
  assume pre: "out_size ob = n" "out_pos ob = 0" "length (in_src ib) = n" "in_size ib \<le> n"
    "in_pos ib < in_size ib" and call: "logged step ctx ob ib = (ret, ctx', ob', ib')"
    and ok: "\<not> isError ret"
  obtain c l where ctx: "ctx = (c, l)" by (cases ctx)
  obtain r c' o' i' where st: "step c ob ib = (r, c', o', i')"
    by (cases "step c ob ib") auto
  from call ctx st have eq: "ret = r" "ob' = o'" "ib' = i'" by (simp_all add: logged_def)
  from assms pre st ok eq(1)
  have "out_size o' = n \<and> in_src i' = in_src ib \<and> in_size i' = in_size ib
          \<and> in_pos ib < in_pos i'"
    unfolding advances_def by blast
  with eq show "out_size ob' = n \<and> in_src ib' = in_src ib \<and> in_size ib' = in_size ib
          \<and> in_pos ib < in_pos ib'" by simp
qed

lemma consume_chunk_logged:
  assumes adv: "advances n isError step"
    and inv: "out_size outputBuffer = n" "length (in_src inputBuffer) = n" "in_size inputBuffer \<le> n"
  shows "\<exists>y. consume_chunk isError step ctx outputBuffer inputBuffer outp = Some y
           \<and> (case y of
                 Inl (ret, outp') \<Rightarrow>
                   isError ret
                   \<and> consume_chunk isError (logged step) (ctx, rets) outputBuffer inputBuffer outp
                       = Some (Inl (ret, outp'))
               | Inr (ctx', outputBuffer', inputBuffer', outp') \<Rightarrow>
                   out_size outputBuffer' = n \<and> length (in_src inputBuffer') = n
                   \<and> in_size inputBuffer' \<le> n
                   \<and> (\<exists>new. (\<forall>r \<in> set new. \<not> isError r)
                         \<and> consume_chunk isError (logged step) (ctx, rets) outputBuffer
                               inputBuffer outp
                             = Some (Inr ((ctx', rets @ new), outputBuffer', inputBuffer', outp'))))"
  using inv
proof (induction "in_size inputBuffer - in_pos inputBuffer"
         arbitrary: ctx rets outputBuffer inputBuffer outp rule: less_induct)
  case less
  show ?case
  proof (cases "in_pos inputBuffer < in_size inputBuffer")
    case False
    then have "consume_chunk isError step ctx outputBuffer inputBuffer outp
                 = Some (Inr (ctx, outputBuffer, inputBuffer, outp))"
      and "consume_chunk isError (logged step) (ctx, rets) outputBuffer inputBuffer outp
                 = Some (Inr ((ctx, rets @ []), outputBuffer, inputBuffer, outp))"
      by (subst consume_chunk.simps, simp)+
    with less.prems show ?thesis by (auto intro: exI [of _ "[]"])
  next
    case more: True
    obtain ret c' ob' ib' where
      st: "step ctx (outputBuffer\<lparr>out_pos := 0\<rparr>) inputBuffer = (ret, c', ob', ib')"
      by (cases "step ctx (outputBuffer\<lparr>out_pos := 0\<rparr>) inputBuffer") auto
    then have lst: "logged step (ctx, rets) (outputBuffer\<lparr>out_pos := 0\<rparr>) inputBuffer
                      = (ret, (c', rets @ [ret]), ob', ib')"
      by (simp add: logged_def)
    show ?thesis
    proof (cases "isError ret")
      case True
      with more st lst
      have "consume_chunk isError step ctx outputBuffer inputBuffer outp = Some (Inl (ret, outp))"
        and "consume_chunk isError (logged step) (ctx, rets) outputBuffer inputBuffer outp
               = Some (Inl (ret, outp))"
        by (subst consume_chunk.simps, simp)+
      with True show ?thesis by simp
    next
      case False
      from adv less.prems more st False
      have keep: "out_size ob' = n" "in_src ib' = in_src inputBuffer"
        "in_size ib' = in_size inputBuffer" "in_pos inputBuffer < in_pos ib'"
        unfolding advances_def
        by (metis ZSTD_outBuffer.select_convs(2,3) ZSTD_outBuffer.surjective
              ZSTD_outBuffer.update_convs(3))+
      then have smaller: "in_size ib' - in_pos ib' < in_size inputBuffer - in_pos inputBuffer"
        using more by arith
      from keep less.prems
      have inv': "out_size ob' = n" "length (in_src ib') = n" "in_size ib' \<le> n" by simp_all
      from less.hyps [OF smaller inv', of c' "outp @ take (out_pos ob') (out_dst ob')" "rets @ [ret]"]
      obtain y where
        y: "consume_chunk isError step c' ob' ib' (outp @ take (out_pos ob') (out_dst ob')) = Some y"
        and rest: "(case y of
                 Inl (r, outp') \<Rightarrow>
                   isError r
                   \<and> consume_chunk isError (logged step) (c', rets @ [ret]) ob' ib'
                         (outp @ take (out_pos ob') (out_dst ob'))
                       = Some (Inl (r, outp'))
               | Inr (ctx', outputBuffer', inputBuffer', outp') \<Rightarrow>
                   out_size outputBuffer' = n \<and> length (in_src inputBuffer') = n
                   \<and> in_size inputBuffer' \<le> n
                   \<and> (\<exists>new. (\<forall>r \<in> set new. \<not> isError r)
                         \<and> consume_chunk isError (logged step) (c', rets @ [ret]) ob' ib'
                               (outp @ take (out_pos ob') (out_dst ob'))
                             = Some (Inr ((ctx', (rets @ [ret]) @ new), outputBuffer',
                                          inputBuffer', outp'))))"
        by blast
      from more st False
      have plain: "consume_chunk isError step ctx outputBuffer inputBuffer outp
                     = consume_chunk isError step c' ob' ib'
                         (outp @ take (out_pos ob') (out_dst ob'))"
        by (subst consume_chunk.simps) simp
      from more lst False
      have traced: "consume_chunk isError (logged step) (ctx, rets) outputBuffer inputBuffer outp
                     = consume_chunk isError (logged step) (c', rets @ [ret]) ob' ib'
                         (outp @ take (out_pos ob') (out_dst ob'))"
        by (subst consume_chunk.simps) simp
      show ?thesis
      proof (cases y)
        case (Inl err)
        with y rest plain traced show ?thesis by (auto split: prod.splits)
      next
        case (Inr fin)
        obtain c'' ob'' ib'' outp'' where fin: "fin = (c'', ob'', ib'', outp'')"
          by (cases fin) auto
        from rest Inr fin obtain new where
          new: "\<forall>r \<in> set new. \<not> isError r"
          and run: "consume_chunk isError (logged step) (c', rets @ [ret]) ob' ib'
                      (outp @ take (out_pos ob') (out_dst ob'))
                    = Some (Inr ((c'', (rets @ [ret]) @ new), ob'', ib'', outp''))"
          and inv'': "out_size ob'' = n" "length (in_src ib'') = n" "in_size ib'' \<le> n"
          by auto
        from new False have "\<forall>r \<in> set (ret # new). \<not> isError r" by simp
        moreover from run traced
        have "consume_chunk isError (logged step) (ctx, rets) outputBuffer inputBuffer outp
                = Some (Inr ((c'', rets @ (ret # new)), ob'', ib'', outp''))" by simp
        ultimately show ?thesis
          using y plain Inr fin inv'' by (auto intro: exI [of _ "ret # new"])
      qed
    qed
  qed
qed

lemma length_store:
  "length chunk \<le> length buf \<Longrightarrow> length (store buf chunk) = length buf"
  by (simp add: store_def)

lemma istream_read_length:
  "istream_read input n = (chunk, input') \<Longrightarrow> length chunk \<le> n"
  by (auto simp: istream_read_def split: if_splits)

lemma istream_read_smaller:
  assumes "istream_read input n = (chunk, input')" and "is_good input" and "0 < n"
  shows "length (is_rest input') + (if is_good input' then 1 else 0)
           < length (is_rest input) + (if is_good input then 1 else 0)"
  using assms by (auto simp: istream_read_def split: if_splits)

lemma read_loop_logged:
  assumes adv: "advances n isError step" and pos: "0 < n"
    and inv: "out_size outputBuffer = n" "length (in_src inputBuffer) = n"
  shows "\<exists>y. read_loop isError step n input ctx outputBuffer inputBuffer outp = Some y
           \<and> (case y of
                 Inl (ret, outp') \<Rightarrow>
                   isError ret
                   \<and> read_loop isError (logged step) n input (ctx, rets) outputBuffer inputBuffer
                         outp
                       = Some (Inl (ret, outp'))
               | Inr (ctx', outputBuffer', outp') \<Rightarrow>
                   (\<exists>new. (\<forall>r \<in> set new. \<not> isError r)
                      \<and> read_loop isError (logged step) n input (ctx, rets) outputBuffer
                            inputBuffer outp
                          = Some (Inr ((ctx', rets @ new), outputBuffer', outp'))))"
  using inv
proof (induction "length (is_rest input) + (if is_good input then 1 else 0)"
         arbitrary: input ctx rets outputBuffer inputBuffer outp rule: less_induct)
  case less
  show ?case
  proof (cases "is_good input")
    case False
    then have "read_loop isError step n input ctx outputBuffer inputBuffer outp
                 = Some (Inr (ctx, outputBuffer, outp))"
      and "read_loop isError (logged step) n input (ctx, rets) outputBuffer inputBuffer outp
                 = Some (Inr ((ctx, rets @ []), outputBuffer, outp))"
      by (subst read_loop.simps, simp)+
    then show ?thesis by (auto intro: exI [of _ "[]"])
  next
    case good: True
    obtain chunk input' where rd: "istream_read input n = (chunk, input')"
      by (cases "istream_read input n") auto
    let ?ib = "inputBuffer\<lparr>in_src := store (in_src inputBuffer) chunk,
                            in_size := length chunk, in_pos := 0\<rparr>"
    from rd have len: "length chunk \<le> n" by (rule istream_read_length)
    with less.prems have ibinv: "length (in_src ?ib) = n" "in_size ?ib \<le> n"
      by (simp_all add: length_store)
    from consume_chunk_logged [OF adv less.prems(1) ibinv, of ctx outp rets]
    obtain res where
      inner: "consume_chunk isError step ctx outputBuffer ?ib outp = Some res"
      and innerlog: "(case res of
                 Inl (ret, outp') \<Rightarrow>
                   isError ret
                   \<and> consume_chunk isError (logged step) (ctx, rets) outputBuffer ?ib outp
                       = Some (Inl (ret, outp'))
               | Inr (ctx', outputBuffer', inputBuffer', outp') \<Rightarrow>
                   out_size outputBuffer' = n \<and> length (in_src inputBuffer') = n
                   \<and> in_size inputBuffer' \<le> n
                   \<and> (\<exists>new. (\<forall>r \<in> set new. \<not> isError r)
                         \<and> consume_chunk isError (logged step) (ctx, rets) outputBuffer ?ib outp
                             = Some (Inr ((ctx', rets @ new), outputBuffer', inputBuffer', outp'))))"
      by blast
    show ?thesis
    proof (cases res)
      case (Inl err)
      obtain ret outp' where err: "err = (ret, outp')" by (cases err)
      from innerlog Inl err
      have e: "isError ret"
        and l: "consume_chunk isError (logged step) (ctx, rets) outputBuffer ?ib outp
                  = Some (Inl (ret, outp'))" by simp_all
      from good rd inner Inl err
      have "read_loop isError step n input ctx outputBuffer inputBuffer outp
              = Some (Inl (ret, outp'))"
        by (subst read_loop.simps) simp
      moreover from good rd l
      have "read_loop isError (logged step) n input (ctx, rets) outputBuffer inputBuffer outp
              = Some (Inl (ret, outp'))"
        by (subst read_loop.simps) simp
      ultimately show ?thesis using e by simp
    next
      case (Inr fin)
      obtain c' ob' ib' outp' where fin: "fin = (c', ob', ib', outp')" by (cases fin) auto
      from innerlog Inr fin obtain new where
        new: "\<forall>r \<in> set new. \<not> isError r"
        and l: "consume_chunk isError (logged step) (ctx, rets) outputBuffer ?ib outp
                  = Some (Inr ((c', rets @ new), ob', ib', outp'))"
        and inv': "out_size ob' = n" "length (in_src ib') = n"
        by auto
      from good rd inner Inr fin
      have plain: "read_loop isError step n input ctx outputBuffer inputBuffer outp
                     = read_loop isError step n input' c' ob' ib' outp'"
        by (subst read_loop.simps) simp
      from good rd l
      have traced: "read_loop isError (logged step) n input (ctx, rets) outputBuffer inputBuffer outp
                     = read_loop isError (logged step) n input' (c', rets @ new) ob' ib' outp'"
        by (subst read_loop.simps) simp
      from istream_read_smaller [OF rd good pos]
      have smaller: "length (is_rest input') + (if is_good input' then 1 else 0)
                       < length (is_rest input) + (if is_good input then 1 else 0)" .
      from less.hyps [OF smaller inv', of c' outp' "rets @ new"]
      obtain y where
        y: "read_loop isError step n input' c' ob' ib' outp' = Some y"
        and rest: "(case y of
                 Inl (ret, outp'') \<Rightarrow>
                   isError ret
                   \<and> read_loop isError (logged step) n input' (c', rets @ new) ob' ib' outp'
                       = Some (Inl (ret, outp''))
               | Inr (ctx', outputBuffer', outp'') \<Rightarrow>
                   (\<exists>new'. (\<forall>r \<in> set new'. \<not> isError r)
                      \<and> read_loop isError (logged step) n input' (c', rets @ new) ob' ib' outp'
                          = Some (Inr ((ctx', (rets @ new) @ new'), outputBuffer', outp''))))"
        by blast
      show ?thesis
      proof (cases y)
        case (Inl err)
        with y rest plain traced show ?thesis by (auto split: prod.splits)
      next
        case (Inr fin')
        obtain c'' ob'' outp'' where fin': "fin' = (c'', ob'', outp'')" by (cases fin') auto
        from rest Inr fin' obtain new' where
          new': "\<forall>r \<in> set new'. \<not> isError r"
          and run: "read_loop isError (logged step) n input' (c', rets @ new) ob' ib' outp'
                      = Some (Inr ((c'', (rets @ new) @ new'), ob'', outp''))"
          by auto
        from new new' have "\<forall>r \<in> set (new @ new'). \<not> isError r" by auto
        moreover from run traced
        have "read_loop isError (logged step) n input (ctx, rets) outputBuffer inputBuffer outp
                = Some (Inr ((c'', rets @ (new @ new')), ob'', outp''))" by simp
        ultimately show ?thesis
          using y plain Inr fin' by (auto intro: exI [of _ "new @ new'"])
      qed
    qed
  qed
qed


lemma read_loop_returns:
  assumes "advances n isError step" and "0 < n"
    and "out_size outputBuffer = n" and "length (in_src inputBuffer) = n"
  shows "\<exists>y. read_loop isError step n input ctx outputBuffer inputBuffer outp = Some y"
  using read_loop_logged [OF assms, of input ctx outp "[]"] by blast

lemma decompressStream_returns:
  assumes "advances (unat (ZSTD_DStreamOutSize z)) (ZSTD_isError z) (ZSTD_decompressStream z)"
    and "0 < unat (ZSTD_DStreamOutSize z)"
  shows "\<exists>r. decompressStream z mx input = Some r"
proof (cases "ZSTD_createDCtx z")
  case None
  then show ?thesis by (simp add: decompressStream_def)
next
  case (Some dctx)
  show ?thesis
  proof (cases "vector_fill mx (unat (ZSTD_DStreamOutSize z))")
    case (Inl e)
    with Some show ?thesis by (simp add: decompressStream_def)
  next
    case (Inr buf)
    then have len: "length buf = unat (ZSTD_DStreamOutSize z)"
      by (auto simp: vector_fill_def split: if_splits)
    from read_loop_returns [OF assms, of "\<lparr>out_dst = buf, out_size = length buf, out_pos = 0\<rparr>"
           "\<lparr>in_src = buf, in_size = 0, in_pos = 0\<rparr>" input dctx "[]"] len
    obtain res where
      "read_loop (ZSTD_isError z) (ZSTD_decompressStream z) (unat (ZSTD_DStreamOutSize z)) input
         dctx \<lparr>out_dst = buf, out_size = length buf, out_pos = 0\<rparr>
         \<lparr>in_src = buf, in_size = 0, in_pos = 0\<rparr> [] = Some res"
      by auto
    with Some Inr show ?thesis
      by (cases res) (auto simp: decompressStream_def split: prod.splits)
  qed
qed

lemma compress_stream_body_returns:
  assumes "advances (unat (ZSTD_CStreamOutSize z)) (ZSTD_isError z) step"
    and "0 < unat (ZSTD_CStreamOutSize z)"
  shows "\<exists>r. compress_stream_body z step mx input = Some r"
proof (cases "ZSTD_createCCtx z")
  case None
  then show ?thesis by (simp add: compress_stream_body_def)
next
  case (Some cctx)
  show ?thesis
  proof (cases "vector_fill mx (unat (ZSTD_CStreamOutSize z))")
    case (Inl e)
    with Some show ?thesis by (simp add: compress_stream_body_def)
  next
    case (Inr buf)
    then have len: "length buf = unat (ZSTD_CStreamOutSize z)"
      by (auto simp: vector_fill_def split: if_splits)
    from read_loop_returns [OF assms, of "\<lparr>out_dst = buf, out_size = length buf, out_pos = 0\<rparr>"
           "\<lparr>in_src = buf, in_size = 0, in_pos = 0\<rparr>" input cctx "[]"] len
    obtain res where
      "read_loop (ZSTD_isError z) step (unat (ZSTD_CStreamOutSize z)) input
         cctx \<lparr>out_dst = buf, out_size = length buf, out_pos = 0\<rparr>
         \<lparr>in_src = buf, in_size = 0, in_pos = 0\<rparr> [] = Some res"
      by auto
    with Some Inr show ?thesis
      by (cases res) (auto simp: compress_stream_body_def split: prod.splits)
  qed
qed

text \<open>The streaming decompressor of the reference codec advances.\<close>

lemma advance_Some: "advance x = Some (st, k, out) \<Longrightarrow> 0 < k"
  by (cases x rule: advance.cases) auto

lemma produce_Some: "produce c x = Some (st, k, out) \<Longrightarrow> 0 < k"
  by (cases "(c, x)" rule: produce.cases) auto

lemma stored_decode_progress:
  assumes "stored_decode st room (c # cs) = Some (st', k, out)" and "0 < room"
  shows "0 < k"
  using assms
  by (cases st) (auto split: if_splits dest: advance_Some produce_Some)

lemma stored_decompressStream_advances:
  "advances n stored_isError stored_decompressStream"
  unfolding advances_def
proof (intro allI impI)
  fix ctx ob ib ret ctx' ob' ib'
  assume pre: "out_size ob = n" "out_pos ob = 0" "length (in_src ib) = n" "in_size ib \<le> n"
    "in_pos ib < in_size ib"
    and call: "stored_decompressStream ctx ob ib = (ret, ctx', ob', ib')"
    and ok: "\<not> stored_isError ret"
  let ?avail = "take (in_size ib - in_pos ib) (drop (in_pos ib) (in_src ib))"
  from pre have "?avail \<noteq> []" by auto
  then obtain c cs where avail: "?avail = c # cs" by (cases ?avail) auto
  from pre have room: "0 < out_size ob - out_pos ob" by simp
  have err: "stored_isError (stored_error 20)"
    by (simp add: stored_isError_def stored_error_def)
  show "out_size ob' = n \<and> in_src ib' = in_src ib \<and> in_size ib' = in_size ib
          \<and> in_pos ib < in_pos ib'"
  proof (cases "stored_decode ctx (out_size ob - out_pos ob) ?avail")
    case None
    with call have "ret = stored_error 20" by (simp add: stored_decompressStream_def)
    with ok err show ?thesis by simp
  next
    case (Some res)
    obtain st' k out where res: "res = (st', k, out)" by (cases res) auto
    from Some res avail room have "0 < k" by (auto dest: stored_decode_progress)
    moreover from call Some res
    have "ob' = emit ob out" "ib' = ib\<lparr>in_pos := in_pos ib + k\<rparr>"
      by (simp_all add: stored_decompressStream_def)
    ultimately show ?thesis using pre by (simp add: emit_def)
  qed
qed


text \<open>No path of a streaming function ends in a \<open>return\<close> statement.\<close>

lemma compress_stream_body_no_return:
  assumes "compress_stream_body z step mx input = Some r"
  shows "outcome r \<noteq> Returned s"
  using assms
  by (auto simp: compress_stream_body_def vector_fill_def
           split: option.splits sum.splits prod.splits if_splits Option.bind_splits)

lemma decompressStream_no_return:
  assumes "decompressStream z mx input = Some r"
  shows "outcome r \<noteq> Returned s"
  using assms
  by (auto simp: decompressStream_def vector_fill_def
           split: option.splits sum.splits prod.splits if_splits Option.bind_splits)

text \<open>
  The streaming functions release their context on every path but the construction of the
  two buffers.
\<close>

lemma decompressStream_ctx_log:
  assumes "decompressStream z mx input = Some r"
  shows "ctx_log r =
           (if ZSTD_createDCtx z = None then []
            else if mx < unat (ZSTD_DStreamOutSize z) then [Created]
            else [Created, Freed])"
  using assms
  by (auto simp: decompressStream_def vector_fill_def
           split: option.splits sum.splits prod.splits if_splits Option.bind_splits)

lemma compress_stream_body_ctx_log:
  assumes "compress_stream_body z step mx input = Some r"
  shows "ctx_log r =
           (if ZSTD_createCCtx z = None then []
            else if mx < unat (ZSTD_CStreamOutSize z) then [Created]
            else [Created, Freed])"
  using assms
  by (auto simp: compress_stream_body_def vector_fill_def
           split: option.splits sum.splits prod.splits if_splits Option.bind_splits)

subsection \<open>Streaming compression and decompression\<close>

text \<open>
  C2, evaluated where the code departs from it. \<open>compressStream\<close> is given the eight
  bytes \<open>abcdefgh\<close> and \<open>decompressStream\<close> the frame of these bytes. Each writes the
  complete result to its local stream, releases the context and ends at the closing brace:
  the caller is handed no string.
\<close>

theorem stream_functions_return_nothing:
  "compressStream stored 1000 \<lparr>is_rest = ''abcdefgh'', is_good = True\<rparr>
     = Some \<lparr>outcome = NoReturn, output_held = ''ZUDaDbDcDdDeDfDgDhE'',
             ctx_log = [Created, Freed]\<rparr>
   \<and> decompressStream stored 1000 \<lparr>is_rest = ''ZUDaDbDcDdDeDfDgDhE'', is_good = True\<rparr>
     = Some \<lparr>outcome = NoReturn, output_held = ''abcdefgh'', ctx_log = [Created, Freed]\<rparr>"
  by code_simp

text \<open>
  C4, as amended. With a context, buffers and a primitive that advances,
  \<open>decompressStream\<close> ends on every input, and it raises an error exactly when a call
  of \<open>ZSTD_decompressStream\<close> returned an error code, namely the error of that code.
  When no call returned an error code it raises no error, whatever the calls returned: a
  frame that is cut short, for which the last call returns a value other than zero, is not
  detected. The context is released in both cases.
\<close>

theorem decompressStream_fails_only_on_primitive_error:
  assumes "ZSTD_createDCtx z = Some dctx"
    and "0 < unat (ZSTD_DStreamOutSize z)" and "unat (ZSTD_DStreamOutSize z) \<le> mx"
    and "advances (unat (ZSTD_DStreamOutSize z)) (ZSTD_isError z) (ZSTD_decompressStream z)"
  shows "\<exists>r calls.
           decompressStream z mx input = Some r
           \<and> decompressStream_calls z mx input = Some calls
           \<and> (case calls of
                 Inl ret \<Rightarrow> ZSTD_isError z ret \<and> outcome r = Threw (decompress_error z ret)
               | Inr rets \<Rightarrow>
                   (\<forall>ret \<in> set rets. \<not> ZSTD_isError z ret) \<and> (\<forall>e. outcome r \<noteq> Threw e))
           \<and> ctx_log r = [Created, Freed]"
proof -
  let ?n = "unat (ZSTD_DStreamOutSize z)"
  let ?buf = "replicate ?n (CHR 0x00)"
  let ?ob = "\<lparr>out_dst = ?buf, out_size = length ?buf, out_pos = 0\<rparr>"
  let ?ib = "\<lparr>in_src = ?buf, in_size = 0, in_pos = 0\<rparr>"
  from assms(3) have vf: "vector_fill mx ?n = Inr ?buf" by (simp add: vector_fill_def)
  have inv: "out_size ?ob = ?n" "length (in_src ?ib) = ?n" by simp_all
  from read_loop_logged [OF assms(4,2) inv, of input dctx "[]" "[]"]
  obtain y where
    plain: "read_loop (ZSTD_isError z) (ZSTD_decompressStream z) ?n input dctx ?ob ?ib [] = Some y"
    and rest: "(case y of
                 Inl (ret, outp') \<Rightarrow>
                   ZSTD_isError z ret
                   \<and> read_loop (ZSTD_isError z) (logged (ZSTD_decompressStream z)) ?n input
                         (dctx, []) ?ob ?ib []
                       = Some (Inl (ret, outp'))
               | Inr (ctx', outputBuffer', outp') \<Rightarrow>
                   (\<exists>new. (\<forall>r \<in> set new. \<not> ZSTD_isError z r)
                      \<and> read_loop (ZSTD_isError z) (logged (ZSTD_decompressStream z)) ?n input
                            (dctx, []) ?ob ?ib []
                          = Some (Inr ((ctx', [] @ new), outputBuffer', outp'))))"
    by blast
  show ?thesis
  proof (cases y)
    case (Inl err)
    obtain ret outp' where err: "err = (ret, outp')" by (cases err)
    from rest Inl err have e: "ZSTD_isError z ret"
      and l: "read_loop (ZSTD_isError z) (logged (ZSTD_decompressStream z)) ?n input
                (dctx, []) ?ob ?ib [] = Some (Inl (ret, outp'))" by simp_all
    from assms(1) vf plain Inl err
    have "decompressStream z mx input
            = Some \<lparr>outcome = Threw (decompress_error z ret), output_held = outp',
                    ctx_log = [Created, Freed]\<rparr>"
      by (simp add: decompressStream_def)
    moreover from assms(1) vf l
    have "decompressStream_calls z mx input = Some (Inl ret)"
      by (simp add: decompressStream_calls_def)
    ultimately show ?thesis using e by simp
  next
    case (Inr fin)
    obtain d' ob' outp' where fin: "fin = (d', ob', outp')" by (cases fin) auto
    from rest Inr fin obtain new where
      new: "\<forall>r \<in> set new. \<not> ZSTD_isError z r"
      and l: "read_loop (ZSTD_isError z) (logged (ZSTD_decompressStream z)) ?n input
                (dctx, []) ?ob ?ib [] = Some (Inr ((d', new), ob', outp'))" by auto
    from assms(1) vf plain Inr fin
    have "decompressStream z mx input
            = Some \<lparr>outcome = NoReturn, output_held = outp', ctx_log = [Created, Freed]\<rparr>"
      by (simp add: decompressStream_def)
    moreover from assms(1) vf l
    have "decompressStream_calls z mx input = Some (Inr new)"
      by (simp add: decompressStream_calls_def)
    ultimately show ?thesis using new by simp
  qed
qed

text \<open>
  On the first 17 bytes of the frame of \<open>abcdef\<close> the three calls return 1, no error is
  raised; on a frame with a wrong block tag the call returns the code of a corrupted frame
  and that error is raised.
\<close>

theorem decompressStream_fails_only_on_primitive_error_witness:
  "decompressStream_calls stored 1000
       \<lparr>is_rest = take 17 (stored_frame ''abcdef''), is_good = True\<rparr> = Some (Inr [1, 1, 1])
   \<and> \<not> ZSTD_isError stored 1
   \<and> (\<exists>r. decompressStream stored 1000
               \<lparr>is_rest = take 17 (stored_frame ''abcdef''), is_good = True\<rparr> = Some r
          \<and> (\<forall>e. outcome r \<noteq> Threw e) \<and> ctx_log r = [Created, Freed])
   \<and> decompressStream_calls stored 1000 \<lparr>is_rest = ''ZKxxxxxxxxDaXb'', is_good = True\<rparr>
       = Some (Inl (stored_error 20))
   \<and> (\<exists>r. decompressStream stored 1000 \<lparr>is_rest = ''ZKxxxxxxxxDaXb'', is_good = True\<rparr> = Some r
          \<and> outcome r = Threw (runtime_error ''Decompression error: Data corruption detected''))"
proof -
  have c: "ZSTD_createDCtx stored = Some Expect_magic" by (simp add: stored_def)
  have n: "0 < unat (ZSTD_DStreamOutSize stored)" "unat (ZSTD_DStreamOutSize stored) \<le> 1000"
    by (simp_all add: stored_def)
  have a: "advances (unat (ZSTD_DStreamOutSize stored)) (ZSTD_isError stored)
             (ZSTD_decompressStream stored)"
    using stored_decompressStream_advances by (simp add: stored_def)
  have calls1: "decompressStream_calls stored 1000
       \<lparr>is_rest = take 17 (stored_frame ''abcdef''), is_good = True\<rparr> = Some (Inr [1, 1, 1])"
    by code_simp
  have calls2: "decompressStream_calls stored 1000
       \<lparr>is_rest = ''ZKxxxxxxxxDaXb'', is_good = True\<rparr> = Some (Inl (stored_error 20))"
    by code_simp
  have ok: "\<not> ZSTD_isError stored 1" by code_simp
  have msg: "decompress_error stored (stored_error 20)
               = runtime_error ''Decompression error: Data corruption detected''"
    by code_simp
  from decompressStream_fails_only_on_primitive_error [OF c n a,
         of "\<lparr>is_rest = take 17 (stored_frame ''abcdef''), is_good = True\<rparr>"]
    decompressStream_fails_only_on_primitive_error [OF c n a,
         of "\<lparr>is_rest = ''ZKxxxxxxxxDaXb'', is_good = True\<rparr>"]
    calls1 calls2 ok msg
  show ?thesis by auto
qed

text \<open>
  The claim as stated fails: the frame that \<open>compressData\<close> returns for \<open>abcdef\<close> has
  23 bytes; without its last byte, and cut to its first 17 bytes, it is taken to the end
  without an error. The local stream then holds the whole payload in the first case and a
  prefix of it in the second.
\<close>

theorem decompressStream_accepts_truncated_frame_counterexample:
  "compressData stored 1000 ''abcdef'' = Inr (stored_frame ''abcdef'')
   \<and> length (stored_frame ''abcdef'') = 23
   \<and> decompressStream stored 1000 \<lparr>is_rest = take 22 (stored_frame ''abcdef''), is_good = True\<rparr>
     = Some \<lparr>outcome = NoReturn, output_held = ''abcdef'', ctx_log = [Created, Freed]\<rparr>
   \<and> decompressStream stored 1000 \<lparr>is_rest = take 17 (stored_frame ''abcdef''), is_good = True\<rparr>
     = Some \<lparr>outcome = NoReturn, output_held = ''abc'', ctx_log = [Created, Freed]\<rparr>"
  by code_simp


subsection \<open>The response filter\<close>

text \<open>
  C10. A response leaves the filter with a compressed body and the header
  Content-Encoding: zstd exactly when its content type is application/json, text/plain or
  text/html, its body is longer than 1024 bytes and \<open>compressData\<close> returns a frame; in
  every other case (another content type, a body of at most 1024 bytes, an exception from
  the compression) it leaves unchanged.
\<close>

theorem responseCallback_compresses_only_large_text:
  "responseCallback z mx resp =
     (case compressData z mx (body resp) of
        Inr compressed \<Rightarrow>
          if contentType resp \<in> {CT_APPLICATION_JSON, CT_TEXT_PLAIN, CT_TEXT_HTML}
               \<and> 1024 < length (body resp)
          then resp\<lparr>body := compressed,
                    headers := headers resp @ [(''Content-Encoding'', ''zstd'')]\<rparr>
          else resp
      | Inl e \<Rightarrow> resp)"
  by (auto simp: responseCallback_def shouldCompress_def setBody_def addHeader_def
           split: sum.splits)

end
